theory Spec2Isabelle
  imports Main "HOL-Library.Multiset"
begin

section \<open>JavaScript values of the request body\<close>

text \<open>
  The fields of \<open>req.body\<close> as the JSON and urlencoded body parsers deliver them.
  Numbers are the integral doubles (the safe integers); non-integral numbers, objects
  and arrays are outside this value model. A field that is absent from the body reads
  as \<open>undefined\<close>.
\<close>

datatype jsval = JUndefined | JNull | JBool bool | JNum int | JStr string

text \<open>ToBoolean: what \<open>!x\<close> and \<open>Boolean(x)\<close> look at.\<close>

fun truthy :: "jsval \<Rightarrow> bool" where
  "truthy JUndefined = False"
| "truthy JNull = False"
| "truthy (JBool b) = b"
| "truthy (JNum n) = (n \<noteq> 0)"
| "truthy (JStr s) = (s \<noteq> [])"

section \<open>Decimal strings\<close>

definition digit_char :: "nat \<Rightarrow> char" where
  "digit_char d = char_of (48 + d)"

fun nat_digits :: "nat \<Rightarrow> string" where
  "nat_digits n = (if n < 10 then [digit_char n] else nat_digits (n div 10) @ [digit_char (n mod 10)])"

declare nat_digits.simps [simp del]

text \<open>\<open>String(n)\<close> for an integral number below \<open>10^21\<close> in magnitude.\<close>

definition js_string_of_int :: "int \<Rightarrow> string" where
  "js_string_of_int i = (if i < 0 then CHR ''-'' # nat_digits (nat (- i)) else nat_digits (nat i))"

text \<open>\<open>s.padStart(n, '0')\<close>: one-character filler, so no truncation of the filler.\<close>

definition padStart0 :: "nat \<Rightarrow> string \<Rightarrow> string" where
  "padStart0 n s = (if n \<le> length s then s else replicate (n - length s) CHR ''0'' @ s)"

section \<open>The Date built-ins used by the partition key\<close>

text \<open>
  Time values are integral milliseconds since the epoch. The definitions follow the
  ECMAScript abstract operations of the same names; the local time zone adjustment is a
  parameter \<open>tz\<close>, the offset in milliseconds that the host adds at a given instant.
\<close>

definition msPerDay :: int where
  "msPerDay = 86400000"

definition Day :: "int \<Rightarrow> int" where
  "Day t = t div msPerDay"

definition DaysInYear :: "int \<Rightarrow> int" where
  "DaysInYear y =
     (if y mod 4 \<noteq> 0 then 365
      else if y mod 100 \<noteq> 0 then 366
      else if y mod 400 \<noteq> 0 then 365
      else 366)"

definition DayFromYear :: "int \<Rightarrow> int" where
  "DayFromYear y = 365 * (y - 1970) + (y - 1969) div 4 - (y - 1901) div 100 + (y - 1601) div 400"

definition TimeFromYear :: "int \<Rightarrow> int" where
  "TimeFromYear y = msPerDay * DayFromYear y"

text \<open>
  YearFromTime is specified as the largest \<open>y\<close> with \<open>TimeFromYear y \<le> t\<close>. It is
  computed here from the mean year length (365.2425 days) and one correction step;
  \<open>YearFromTime_bounds\<close> below shows that the result is that largest year.
\<close>

definition YearFromTime :: "int \<Rightarrow> int" where
  "YearFromTime t =
     (let y = 1970 + (Day t * 10000) div 3652425
      in if Day t < DayFromYear y then y - 1
         else if DayFromYear (y + 1) \<le> Day t then y + 1
         else y)"

definition InLeapYear :: "int \<Rightarrow> bool" where
  "InLeapYear t = (DaysInYear (YearFromTime t) = 366)"

definition DayWithinYear :: "int \<Rightarrow> int" where
  "DayWithinYear t = Day t - DayFromYear (YearFromTime t)"

definition MonthFromTime :: "int \<Rightarrow> int" where
  "MonthFromTime t =
     (let d = DayWithinYear t; l = (if InLeapYear t then 1 else 0)
      in if d < 31 then 0
         else if d < 59 + l then 1
         else if d < 90 + l then 2
         else if d < 120 + l then 3
         else if d < 151 + l then 4
         else if d < 181 + l then 5
         else if d < 212 + l then 6
         else if d < 243 + l then 7
         else if d < 273 + l then 8
         else if d < 304 + l then 9
         else if d < 334 + l then 10
         else 11)"

definition LocalTime :: "(int \<Rightarrow> int) \<Rightarrow> int \<Rightarrow> int" where
  "LocalTime tz t = t + tz t"

text \<open>TimeClip: \<open>new Date(v)\<close> is an invalid date beyond 8.64e15 ms from the epoch.\<close>

definition valid_time :: "int \<Rightarrow> bool" where
  "valid_time t = (\<bar>t\<bar> \<le> 8640000000000000)"

definition getFullYear :: "(int \<Rightarrow> int) \<Rightarrow> int \<Rightarrow> int" where
  "getFullYear tz t = YearFromTime (LocalTime tz t)"

definition getMonth :: "(int \<Rightarrow> int) \<Rightarrow> int \<Rightarrow> int" where
  "getMonth tz t = MonthFromTime (LocalTime tz t)"

section \<open>db-adapter: the partition key\<close>

text \<open>
  \<^verbatim>\<open>
  function getMonthPartition(timestamp) {
    const date = new Date(timestamp)
    const year = date.getFullYear()
    const month = String(date.getMonth() + 1).padStart(2, '0')
    return `${year}-${month}`
  }
  \<close>
  On an invalid date both getters give NaN, and the template prints \<open>NaN-NaN\<close>.
\<close>

definition getMonthPartition :: "(int \<Rightarrow> int) \<Rightarrow> int \<Rightarrow> string" where
  "getMonthPartition tz timestamp =
     (if valid_time timestamp then
        (let year = getFullYear tz timestamp;
             month = padStart0 2 (js_string_of_int (getMonth tz timestamp + 1))
         in js_string_of_int year @ ''-'' @ month)
      else ''NaN-NaN'')"

section \<open>Coercions at the store boundary\<close>

text \<open>
  \<open>parseInt(v)\<close> without a radix: the argument is converted to a string, leading white
  space is skipped, a sign is read, a \<open>0x\<close> prefix selects radix 16, and the longest
  prefix of digits is the value; no digit at all gives NaN (\<open>None\<close>). Strings are byte
  strings here, so only the ASCII white space characters are recognised.
\<close>

definition is_ws :: "char \<Rightarrow> bool" where
  "is_ws c = (of_char c \<in> {9, 10, 11, 12, 13, 32 :: nat})"

definition digit_val :: "nat \<Rightarrow> char \<Rightarrow> nat option" where
  "digit_val radix c =
     (let n = (of_char c :: nat);
          v = (if 48 \<le> n \<and> n \<le> 57 then Some (n - 48)
               else if 97 \<le> n \<and> n \<le> 122 then Some (n - 87)
               else if 65 \<le> n \<and> n \<le> 90 then Some (n - 55)
               else None)
      in case v of None \<Rightarrow> None | Some d \<Rightarrow> if d < radix then Some d else None)"

fun digits_value :: "nat \<Rightarrow> nat \<Rightarrow> string \<Rightarrow> nat" where
  "digits_value radix acc [] = acc"
| "digits_value radix acc (c # cs) =
     (case digit_val radix c of
        None \<Rightarrow> acc
      | Some d \<Rightarrow> digits_value radix (acc * radix + d) cs)"

definition parse_int_string :: "string \<Rightarrow> int option" where
  "parse_int_string s =
     (let s1 = dropWhile is_ws s;
          neg = (case s1 of c # _ \<Rightarrow> c = CHR ''-'' | [] \<Rightarrow> False);
          s2 = (case s1 of c # r \<Rightarrow> if c = CHR ''-'' \<or> c = CHR ''+'' then r else s1 | [] \<Rightarrow> s1);
          hex = (case s2 of a # b # _ \<Rightarrow> a = CHR ''0'' \<and> (b = CHR ''x'' \<or> b = CHR ''X'') | _ \<Rightarrow> False);
          radix = (if hex then 16 else 10);
          s3 = (if hex then drop 2 s2 else s2)
      in case s3 of
           [] \<Rightarrow> None
         | c # _ \<Rightarrow>
             (case digit_val radix c of
                None \<Rightarrow> None
              | Some _ \<Rightarrow>
                  Some ((if neg then - 1 else 1) * int (digits_value radix 0 s3))))"

fun parseInt :: "jsval \<Rightarrow> int option" where
  "parseInt (JNum n) = Some n"
| "parseInt (JStr s) = parse_int_string s"
| "parseInt (JBool b) = None"
| "parseInt JNull = None"
| "parseInt JUndefined = None"

section \<open>The two storage engines\<close>

text \<open>
  The engines are the environment of the adapter. Each database (the PostgreSQL database,
  or one SQLite file) is a catalogue of named schema objects, the rows of the
  \<open>reports\<close> table and the last value of its id sequence. The \<open>created_at\<close> column,
  which the engine fills in by itself, is not part of a row here. The two text columns
  hold the parameter that was bound; how an engine renders a non-string parameter as
  text is left open. Faults of a running engine other than the errors listed (a
  connection lost in the middle of a call, a full disk) are not modelled.
\<close>

datatype error =
    TypeError
  | ConnectError
  | AlreadyExists
  | NoSuchTable
  | InvalidInteger
  | IntegerOutOfRange
  | NotNullViolation

datatype obj_kind = TableObj | IndexObj

datatype sqlval = SqlBool bool | SqlInt int

record report_row =
  r_id :: int
  r_class :: int
  r_isadd :: sqlval
  r_changescore :: int
  r_submittime :: int
  r_note :: jsval
  r_submitter :: jsval
  r_month_partition :: string

record database =
  catalog :: "(obj_kind \<times> string) list"
  reports :: "report_row list"
  seq :: int

definition empty_db :: database where
  "empty_db = \<lparr>catalog = [], reports = [], seq = 0\<rparr>"

datatype db_type = Postgres | Sqlite

datatype db_instance = Pool | SqliteMarker

record db_context =
  ctx_type :: db_type
  ctx_instance :: db_instance
  isReady :: bool

datatype stmt = CheckTable | CreateTable | CheckIndex | CreateIndex | Insert | SelectByMonth

datatype engine_call =
    PoolConnect
  | ClientQuery stmt
  | ClientRelease
  | FsExistsSync
  | FsMkdirSync
  | DatabaseOpen string
  | DbCall string stmt
  | DbClose string

text \<open>
  The world: \<open>global.dbContext\<close> (undefined before initDatabase has run), whether the
  PostgreSQL server accepts connections, its database, the DB directory with its files
  (keyed by file name), and the sequence of engine calls made so far.
\<close>

record world =
  dbContext :: "db_context option"
  pg_reachable :: bool
  pg_db :: database
  db_dir :: bool
  files :: "string \<rightharpoonup> database"
  calls :: "engine_call list"

definition called :: "engine_call \<Rightarrow> world \<Rightarrow> world" where
  "called c w = w\<lparr>calls := calls w @ [c]\<rparr>"

definition has_table :: "database \<Rightarrow> bool" where
  "has_table d = ((TableObj, ''reports'') \<in> set (catalog d))"

definition name_taken :: "string \<Rightarrow> database \<Rightarrow> bool" where
  "name_taken n d = (n \<in> snd ` set (catalog d))"



definition create_table :: "database \<Rightarrow> database" where
  "create_table d = d\<lparr>catalog := catalog d @ [(TableObj, ''reports'')]\<rparr>"

definition create_index :: "string \<Rightarrow> database \<Rightarrow> database" where
  "create_index n d = d\<lparr>catalog := catalog d @ [(IndexObj, n)]\<rparr>"

definition insert_row :: "report_row \<Rightarrow> database \<Rightarrow> database" where
  "insert_row r d = d\<lparr>reports := reports d @ [r\<lparr>r_id := seq d + 1\<rparr>], seq := seq d + 1\<rparr>"

subsection \<open>PostgreSQL: the pool and a checked-out client\<close>

definition pool_connect :: "world \<Rightarrow> (error + unit) \<times> world" where
  "pool_connect w =
     (if pg_reachable w then (Inr (), called PoolConnect w)
      else (Inl ConnectError, called PoolConnect w))"

definition client_release :: "world \<Rightarrow> world" where
  "client_release w = called ClientRelease w"

text \<open>The catalogue lookup in \<open>information_schema.tables\<close>.\<close>

definition client_query_table_exists :: "world \<Rightarrow> bool \<times> world" where
  "client_query_table_exists w = (has_table (pg_db w), called (ClientQuery CheckTable) w)"

text \<open>\<open>CREATE TABLE reports\<close>: tables and indexes share one name space.\<close>

definition client_query_create_table :: "world \<Rightarrow> (error + unit) \<times> world" where
  "client_query_create_table w =
     (let w1 = called (ClientQuery CreateTable) w; d = pg_db w1
      in if name_taken ''reports'' d then (Inl AlreadyExists, w1)
         else (Inr (), w1\<lparr>pg_db := create_table d\<rparr>))"

definition client_query_create_index :: "world \<Rightarrow> (error + unit) \<times> world" where
  "client_query_create_index w =
     (let w1 = called (ClientQuery CreateIndex) w; d = pg_db w1
      in if \<not> has_table d then (Inl NoSuchTable, w1)
         else if name_taken ''reports_month_partition_idx'' d then (Inl AlreadyExists, w1)
         else (Inr (), w1\<lparr>pg_db := create_index ''reports_month_partition_idx'' d\<rparr>))"

text \<open>
  A parameter for an \<open>INTEGER\<close> column: NaN is not an integer, and the column is 32 bits
  wide. A \<open>null\<close> or \<open>undefined\<close> parameter is SQL NULL.
\<close>

definition pg_int :: "int option \<Rightarrow> error + int" where
  "pg_int v =
     (case v of
        None \<Rightarrow> Inl InvalidInteger
      | Some n \<Rightarrow> if - 2147483648 \<le> n \<and> n \<le> 2147483647 then Inr n else Inl IntegerOutOfRange)"

definition is_sql_null :: "jsval \<Rightarrow> bool" where
  "is_sql_null v = (v = JNull \<or> v = JUndefined)"

text \<open>
  \<open>INSERT INTO reports (...) VALUES ($1, ..., $7) RETURNING id\<close>. The parameters are
  converted when they are bound; the id is drawn from the sequence before the NOT NULL
  constraints are checked, so a row refused there still uses up an id.
\<close>

definition client_query_insert ::
  "int option \<Rightarrow> bool \<Rightarrow> int option \<Rightarrow> int \<Rightarrow> jsval \<Rightarrow> jsval \<Rightarrow> string \<Rightarrow> world
     \<Rightarrow> (error + int) \<times> world" where
  "client_query_insert cls isadd score submittime note submitter monthPartition w =
     (let w1 = called (ClientQuery Insert) w; d = pg_db w1
      in if \<not> has_table d then (Inl NoSuchTable, w1)
         else case pg_int cls of
           Inl e \<Rightarrow> (Inl e, w1)
         | Inr c \<Rightarrow>
             (case pg_int score of
                Inl e \<Rightarrow> (Inl e, w1)
              | Inr sc \<Rightarrow>
                  if is_sql_null note \<or> is_sql_null submitter
                  then (Inl NotNullViolation, w1\<lparr>pg_db := d\<lparr>seq := seq d + 1\<rparr>\<rparr>)
                  else (Inr (seq d + 1),
                        w1\<lparr>pg_db := insert_row
                             \<lparr>r_id = 0, r_class = c, r_isadd = SqlBool isadd, r_changescore = sc,
                              r_submittime = submittime, r_note = note, r_submitter = submitter,
                              r_month_partition = monthPartition\<rparr> d\<rparr>)))"


subsection \<open>SQLite: one database file per partition\<close>

text \<open>
  A \<open>Database\<close> object is a handle on its file, so it is modelled by the file name.
  Opening creates the file when it is missing and fails when the directory is.
\<close>

definition file_db :: "string \<Rightarrow> world \<Rightarrow> database" where
  "file_db f w = (case files w f of None \<Rightarrow> empty_db | Some d \<Rightarrow> d)"

definition set_file :: "string \<Rightarrow> database \<Rightarrow> world \<Rightarrow> world" where
  "set_file f d w = w\<lparr>files := (files w)(f \<mapsto> d)\<rparr>"

definition Database_open :: "string \<Rightarrow> world \<Rightarrow> (error + string) \<times> world" where
  "Database_open f w =
     (let w1 = called (DatabaseOpen f) w
      in if \<not> db_dir w1 then (Inl TypeError, w1)
         else case files w1 f of
           None \<Rightarrow> (Inr f, set_file f empty_db w1)
         | Some _ \<Rightarrow> (Inr f, w1))"

definition db_close :: "string \<Rightarrow> world \<Rightarrow> world" where
  "db_close db w = called (DbClose db) w"

text \<open>\<open>CREATE TABLE IF NOT EXISTS reports\<close>.\<close>

definition db_exec_create_table :: "string \<Rightarrow> world \<Rightarrow> (error + unit) \<times> world" where
  "db_exec_create_table db w =
     (let w1 = called (DbCall db CreateTable) w; d = file_db db w1
      in if has_table d then (Inr (), w1)
         else if name_taken ''reports'' d then (Inl AlreadyExists, w1)
         else (Inr (), set_file db (create_table d) w1))"

text \<open>The lookup of the index in \<open>sqlite_master\<close>; \<open>get()\<close> gives a row or undefined.\<close>

definition db_get_index :: "string \<Rightarrow> world \<Rightarrow> bool \<times> world" where
  "db_get_index db w =
     ((IndexObj, ''idx_month_partition'') \<in> set (catalog (file_db db w)),
      called (DbCall db CheckIndex) w)"

definition db_exec_create_index :: "string \<Rightarrow> world \<Rightarrow> (error + unit) \<times> world" where
  "db_exec_create_index db w =
     (let w1 = called (DbCall db CreateIndex) w; d = file_db db w1
      in if name_taken ''idx_month_partition'' d then (Inl AlreadyExists, w1)
         else if \<not> has_table d then (Inl NoSuchTable, w1)
         else (Inr (), set_file db (create_index ''idx_month_partition'' d) w1))"


text \<open>
  \<open>prepare(INSERT ...).run(...)\<close>. The driver refuses to bind a boolean; NaN, null and
  undefined are stored as NULL, which the NOT NULL columns refuse.
\<close>

definition sqlite_unbindable :: "jsval \<Rightarrow> bool" where
  "sqlite_unbindable v = (case v of JBool _ \<Rightarrow> True | _ \<Rightarrow> False)"

definition db_run_insert ::
  "string \<Rightarrow> int option \<Rightarrow> int \<Rightarrow> int option \<Rightarrow> int \<Rightarrow> jsval \<Rightarrow> jsval \<Rightarrow> string \<Rightarrow> world
     \<Rightarrow> (error + int) \<times> world" where
  "db_run_insert db cls isadd score submittime note submitter monthPartition w =
     (let w1 = called (DbCall db Insert) w; d = file_db db w1
      in if \<not> has_table d then (Inl NoSuchTable, w1)
         else if sqlite_unbindable note \<or> sqlite_unbindable submitter then (Inl TypeError, w1)
         else case (cls, score) of
           (Some c, Some sc) \<Rightarrow>
             if is_sql_null note \<or> is_sql_null submitter then (Inl NotNullViolation, w1)
             else (Inr (seq d + 1),
                   set_file db (insert_row
                        \<lparr>r_id = 0, r_class = c, r_isadd = SqlInt isadd, r_changescore = sc,
                         r_submittime = submittime, r_note = note, r_submitter = submitter,
                         r_month_partition = monthPartition\<rparr> d) w1)
         | _ \<Rightarrow> (Inl NotNullViolation, w1))"


section \<open>db-adapter\<close>

text \<open>\<open>getDbType\<close> reads \<open>global.dbContext.type\<close>, a TypeError while that is undefined.\<close>

definition getDbType :: "world \<Rightarrow> error + db_type" where
  "getDbType w = (case dbContext w of None \<Rightarrow> Inl TypeError | Some c \<Rightarrow> Inr (ctx_type c))"

text \<open>
  \<^verbatim>\<open>
  function ensureSqliteTable(db) {
    db.exec(`CREATE TABLE IF NOT EXISTS reports (...)`)
    const indexExists = db.prepare(`SELECT name FROM sqlite_master
      WHERE type='index' AND name='idx_month_partition'`).get()
    if (!indexExists) {
      db.exec(`CREATE INDEX idx_month_partition ON reports(month_partition)`)
    }
  }
  \<close>
\<close>

definition ensureSqliteTable :: "string \<Rightarrow> world \<Rightarrow> (error + unit) \<times> world" where
  "ensureSqliteTable db w =
     (case db_exec_create_table db w of
        (Inl e, w1) \<Rightarrow> (Inl e, w1)
      | (Inr _, w1) \<Rightarrow>
          (case db_get_index db w1 of
             (indexExists, w2) \<Rightarrow>
               if \<not> indexExists then db_exec_create_index db w2 else (Inr (), w2)))"

text \<open>
  \<^verbatim>\<open>
  function getSqliteDatabase(monthPartition) {
    if (!fs.existsSync(dbDir)) { fs.mkdirSync(dbDir, { recursive: true }) }
    const dbFileName = `reports_${monthPartition}.db`
    const dbPath = path.join(dbDir, dbFileName)
    const db = new Database(dbPath)
    ensureSqliteTable(db)
    return db
  }
  \<close>
  The partition string is taken as a plain part of a file name: the directory holds the
  files by name, and path separators in the string are not interpreted.
\<close>

definition ensure_dir :: "world \<Rightarrow> world" where
  "ensure_dir w =
     (let w1 = called FsExistsSync w
      in if \<not> db_dir w1 then called FsMkdirSync (w1\<lparr>db_dir := True\<rparr>) else w1)"

definition dbFileName :: "string \<Rightarrow> string" where
  "dbFileName monthPartition = ''reports_'' @ monthPartition @ ''.db''"

definition getSqliteDatabase :: "string \<Rightarrow> world \<Rightarrow> (error + string) \<times> world" where
  "getSqliteDatabase monthPartition w =
     (case Database_open (dbFileName monthPartition) (ensure_dir w) of
        (Inl e, w1) \<Rightarrow> (Inl e, w1)
      | (Inr db, w1) \<Rightarrow>
          (case ensureSqliteTable db w1 of
             (Inl e, w2) \<Rightarrow> (Inl e, w2)
           | (Inr _, w2) \<Rightarrow> (Inr db, w2)))"

text \<open>
  \<^verbatim>\<open>
  async function ensurePostgresTable(client) {
    try {
      const tableCheck = await client.query(`SELECT EXISTS (...)`)
      if (!tableCheck.rows[0].exists) {
        await client.query(`CREATE TABLE reports (...)`)
        await client.query(`CREATE INDEX reports_month_partition_idx ON reports(month_partition)`)
      }
    } catch (error) { console.error(...); throw error }
  }
  \<close>
\<close>

definition ensurePostgresTable :: "world \<Rightarrow> (error + unit) \<times> world" where
  "ensurePostgresTable w =
     (case client_query_table_exists w of
        (tableExists, w1) \<Rightarrow>
          if \<not> tableExists then
            (case client_query_create_table w1 of
               (Inl e, w2) \<Rightarrow> (Inl e, w2)
             | (Inr _, w2) \<Rightarrow> client_query_create_index w2)
          else (Inr (), w1))"

text \<open>\<open>global.dbContext.instance.connect()\<close>: only the pool has a \<open>connect\<close> method.\<close>

definition instance_connect :: "world \<Rightarrow> (error + unit) \<times> world" where
  "instance_connect w =
     (case dbContext w of
        None \<Rightarrow> (Inl TypeError, w)
      | Some c \<Rightarrow>
          (case ctx_instance c of
             Pool \<Rightarrow> pool_connect w
           | SqliteMarker \<Rightarrow> (Inl TypeError, w)))"

record submit_data =
  d_class :: jsval
  d_isadd :: jsval
  d_changescore :: jsval
  d_note :: jsval
  d_submitter :: jsval

record submit_result =
  res_id :: int
  res_database :: string
  res_submittime :: int

text \<open>
  \<open>addReport(data)\<close>; \<open>now\<close> is the value \<open>Date.now()\<close> returns in this call. Both
  branches run their statements under \<open>try ... finally\<close>, so the client is released and
  the database closed on every path once they were obtained.
\<close>

definition addReport ::
  "(int \<Rightarrow> int) \<Rightarrow> int \<Rightarrow> submit_data \<Rightarrow> world \<Rightarrow> (error + submit_result) \<times> world" where
  "addReport tz now data w =
     (let submittime = now;
          monthPartition = getMonthPartition tz submittime
      in case getDbType w of
           Inl e \<Rightarrow> (Inl e, w)
         | Inr ty \<Rightarrow>
             if ty = Postgres then
               (case instance_connect w of
                  (Inl e, w1) \<Rightarrow> (Inl e, w1)
                | (Inr _, w1) \<Rightarrow>
                    (case
                       (case ensurePostgresTable w1 of
                          (Inl e, w2) \<Rightarrow> (Inl e, w2)
                        | (Inr _, w2) \<Rightarrow>
                            (case client_query_insert (parseInt (d_class data))
                                    (truthy (d_isadd data)) (parseInt (d_changescore data))
                                    submittime (d_note data) (d_submitter data) monthPartition w2 of
                               (Inl e, w3) \<Rightarrow> (Inl e, w3)
                             | (Inr i, w3) \<Rightarrow>
                                 (Inr \<lparr>res_id = i, res_database = monthPartition,
                                       res_submittime = submittime\<rparr>, w3)))
                     of (r, w4) \<Rightarrow> (r, client_release w4)))
             else
               (case getSqliteDatabase monthPartition w of
                  (Inl e, w1) \<Rightarrow> (Inl e, w1)
                | (Inr db, w1) \<Rightarrow>
                    (case
                       (case db_run_insert db (parseInt (d_class data))
                               (if truthy (d_isadd data) then 1 else 0)
                               (parseInt (d_changescore data))
                               submittime (d_note data) (d_submitter data) monthPartition w1 of
                          (Inl e, w2) \<Rightarrow> (Inl e, w2)
                        | (Inr i, w2) \<Rightarrow>
                            (Inr \<lparr>res_id = i, res_database = monthPartition,
                                  res_submittime = submittime\<rparr>, w2))
                     of (r, w3) \<Rightarrow> (r, db_close db w3))))"


section \<open>The routes\<close>

datatype message = MissingFields | SubmitOk | ServerError

datatype payload =
    NoData
  | Submitted int string int
  | ReportRows "report_row list"

record http_response =
  status :: nat
  success :: bool
  msg :: "message option"
  payload :: payload

text \<open>
  \<open>req.body\<close> is the object that the body parsers have built. Reading a field of it
  gives \<open>undefined\<close> when the key is absent.
\<close>

definition field :: "(string \<rightharpoonup> jsval) \<Rightarrow> string \<Rightarrow> jsval" where
  "field b k = (case b k of None \<Rightarrow> JUndefined | Some v \<Rightarrow> v)"

text \<open>
  \<^verbatim>\<open>
  router.post('/inputdata', async (req, res) => {
    try {
      const { class: classNum, isadd, changescore, note, submitter } = req.body
      if (!classNum || isadd === undefined || !changescore || !note || !submitter) {
        return res.status(400).json({ success: false, message: ... })
      }
      const result = await dbAdapter.addReport({ class: classNum, isadd, changescore, note, submitter })
      res.json({ success: true, message: ..., id: result.id, database: result.database,
                 submittime: result.submittime })
    } catch (error) {
      res.status(500).json({ success: false, message: ... })
    }
  })
  \<close>
\<close>

definition post_inputdata ::
  "(int \<Rightarrow> int) \<Rightarrow> int \<Rightarrow> (string \<rightharpoonup> jsval) \<Rightarrow> world \<Rightarrow> http_response \<times> world" where
  "post_inputdata tz now body w =
     (let classNum = field body ''class'';
          isadd = field body ''isadd'';
          changescore = field body ''changescore'';
          note = field body ''note'';
          submitter = field body ''submitter''
      in if \<not> truthy classNum \<or> isadd = JUndefined \<or> \<not> truthy changescore
            \<or> \<not> truthy note \<or> \<not> truthy submitter
         then (\<lparr>status = 400, success = False, msg = Some MissingFields, payload = NoData\<rparr>, w)
         else
           (case addReport tz now
                   \<lparr>d_class = classNum, d_isadd = isadd, d_changescore = changescore,
                    d_note = note, d_submitter = submitter\<rparr> w of
              (Inr result, w1) \<Rightarrow>
                (\<lparr>status = 200, success = True, msg = Some SubmitOk,
                  payload = Submitted (res_id result) (res_database result)
                              (res_submittime result)\<rparr>, w1)
            | (Inl e, w1) \<Rightarrow>
                (\<lparr>status = 500, success = False, msg = Some ServerError, payload = NoData\<rparr>, w1)))"


section \<open>Startup: choosing the backend\<close>

text \<open>\<open>const DB_TYPE = process.env.DB_TYPE || 'auto'\<close>: unset and empty both give auto.\<close>

definition DB_TYPE :: "string option \<Rightarrow> string" where
  "DB_TYPE env = (case env of None \<Rightarrow> ''auto'' | Some s \<Rightarrow> if s = [] then ''auto'' else s)"

text \<open>
  \<open>initPostgres\<close> builds the pool and checks out one client as a probe; the client is
  released and the pool returned, or the connection error is thrown again.
\<close>

definition initPostgres :: "world \<Rightarrow> (error + db_instance) \<times> world" where
  "initPostgres w =
     (case pool_connect w of
        (Inl e, w1) \<Rightarrow> (Inl e, w1)
      | (Inr _, w1) \<Rightarrow> (Inr Pool, client_release w1))"

definition initSqlite :: "world \<Rightarrow> db_instance \<times> world" where
  "initSqlite w = (SqliteMarker, ensure_dir w)"

datatype init_outcome = Ready | ProcessExit nat

definition set_context :: "db_type \<Rightarrow> db_instance \<Rightarrow> world \<Rightarrow> world" where
  "set_context ty inst w =
     w\<lparr>dbContext := Some \<lparr>ctx_type = ty, ctx_instance = inst, isReady = True\<rparr>\<rparr>"

text \<open>
  \<^verbatim>\<open>
  async function initDatabase() {
    if (DB_TYPE === 'postgres') {
      try { const pool = await initPostgres(); dbContext.type = 'postgres'; ... }
      catch (err) { console.error(...); process.exit(1) }
    } else if (DB_TYPE === 'sqlite') {
      dbContext.type = 'sqlite'; dbContext.instance = initSqlite(); dbContext.isReady = true
    } else {
      try { const pool = await initPostgres(); dbContext.type = 'postgres'; ... }
      catch (err) { dbContext.type = 'sqlite'; dbContext.instance = initSqlite(); ... }
    }
    global.dbContext = dbContext
  }
  \<close>
\<close>

definition initDatabase :: "string \<Rightarrow> world \<Rightarrow> init_outcome \<times> world" where
  "initDatabase dbType w =
     (if dbType = ''postgres'' then
        (case initPostgres w of
           (Inr pool, w1) \<Rightarrow> (Ready, set_context Postgres pool w1)
         | (Inl err, w1) \<Rightarrow> (ProcessExit 1, w1))
      else if dbType = ''sqlite'' then
        (case initSqlite w of (inst, w1) \<Rightarrow> (Ready, set_context Sqlite inst w1))
      else
        (case initPostgres w of
           (Inr pool, w1) \<Rightarrow> (Ready, set_context Postgres pool w1)
         | (Inl err, w1) \<Rightarrow>
             (case initSqlite w1 of (inst, w2) \<Rightarrow> (Ready, set_context Sqlite inst w2))))"

text \<open>A freshly started process on a machine where nothing has been stored yet.\<close>

definition fresh_world :: "bool \<Rightarrow> world" where
  "fresh_world reachable =
     \<lparr>dbContext = None, pg_reachable = reachable, pg_db = empty_db, db_dir = False,
      files = Map.empty, calls = []\<rparr>"

section \<open>Notions used in the properties, and concrete scenarios\<close>

definition rejected :: http_response where
  "rejected = \<lparr>status = 400, success = False, msg = Some MissingFields, payload = NoData\<rparr>"

definition new_calls :: "world \<Rightarrow> world \<Rightarrow> engine_call list" where
  "new_calls w w' = drop (length (calls w)) (calls w')"

text \<open>A server whose local time is UTC.\<close>

definition utc :: "int \<Rightarrow> int" where
  "utc t = 0"

definition zero_class_body :: "string \<rightharpoonup> jsval" where
  "zero_class_body =
     [''class'' \<mapsto> JNum 0, ''isadd'' \<mapsto> JBool True, ''changescore'' \<mapsto> JNum 5,
      ''note'' \<mapsto> JStr ''late'', ''submitter'' \<mapsto> JStr ''teacherA'']"

definition no_note_body :: "string \<rightharpoonup> jsval" where
  "no_note_body =
     [''class'' \<mapsto> JNum 3, ''isadd'' \<mapsto> JBool True, ''changescore'' \<mapsto> JNum 5,
      ''submitter'' \<mapsto> JStr ''teacherA'']"




text \<open>
  The rows held by the store that serves partition \<open>p\<close>: the shared table on the network
  engine, the partition's own file on the embedded engine; and those among them that
  carry \<open>p\<close> in their partition column.
\<close>

definition stored_rows :: "string \<Rightarrow> world \<Rightarrow> report_row list" where
  "stored_rows p w =
     (if getDbType w = Inr Postgres then reports (pg_db w)
      else reports (file_db (dbFileName p) w))"




definition sqlite_schema :: "(obj_kind \<times> string) list" where
  "sqlite_schema = [(TableObj, ''reports''), (IndexObj, ''idx_month_partition'')]"

definition pg_schema :: "(obj_kind \<times> string) list" where
  "pg_schema = [(TableObj, ''reports''), (IndexObj, ''reports_month_partition_idx'')]"

text \<open>Worlds after startup with nothing stored: embedded engine, network engine.\<close>

definition sqlite_world :: world where
  "sqlite_world = snd (initDatabase ''sqlite'' (fresh_world False))"

definition postgres_world :: world where
  "postgres_world = snd (initDatabase ''postgres'' (fresh_world True))"

definition march_db :: string where
  "march_db = dbFileName ''2024-03''"

definition opened_world :: world where
  "opened_world = snd (Database_open march_db sqlite_world)"






text \<open>
  The invariant of the data model: every stored row carries the partition derived from its
  own submit time. \<open>rows_kept\<close> relates two worlds that hold the same rows everywhere.
\<close>

definition row_consistent :: "(int \<Rightarrow> int) \<Rightarrow> report_row \<Rightarrow> bool" where
  "row_consistent tz r = (r_month_partition r = getMonthPartition tz (r_submittime r))"

definition store_consistent :: "(int \<Rightarrow> int) \<Rightarrow> world \<Rightarrow> bool" where
  "store_consistent tz w =
     ((\<forall>r \<in> set (reports (pg_db w)). row_consistent tz r)
      \<and> (\<forall>f. \<forall>r \<in> set (reports (file_db f w)). row_consistent tz r))"

definition rows_kept :: "world \<Rightarrow> world \<Rightarrow> bool" where
  "rows_kept w w' =
     (reports (pg_db w') = reports (pg_db w)
      \<and> (\<forall>f. reports (file_db f w') = reports (file_db f w))
      \<and> dbContext w' = dbContext w)"



definition valid_data :: submit_data where
  "valid_data =
     \<lparr>d_class = JNum 3, d_isadd = JBool True, d_changescore = JNum 5,
      d_note = JStr ''late'', d_submitter = JStr ''teacherA''\<rparr>"

definition march_result :: submit_result where
  "march_result = \<lparr>res_id = 1, res_database = ''2024-03'', res_submittime = 1710000000000\<rparr>"



text \<open>
  The calendar, in its own words: the Gregorian leap year rule, the lengths of the twelve
  months, and the number of days between 1 January 1970 and 1 January of a year, counted
  year by year. Day number \<open>d\<close> (days since 1 January 1970) lies in month \<open>m\<close> (counted
  from 0) of year \<open>y\<close> when it is at least the first day of that month and before the first
  day of the next.
\<close>

definition leap_year :: "int \<Rightarrow> bool" where
  "leap_year y = (4 dvd y \<and> (\<not> 100 dvd y \<or> 400 dvd y))"

definition month_lengths :: "int \<Rightarrow> int list" where
  "month_lengths y = [31, if leap_year y then 29 else 28, 31, 30, 31, 30, 31, 31, 30, 31, 30, 31]"

definition year_length :: "int \<Rightarrow> int" where
  "year_length y = sum_list (month_lengths y)"

definition days_before_month :: "int \<Rightarrow> nat \<Rightarrow> int" where
  "days_before_month y m = sum_list (take m (month_lengths y))"

primrec days_from_1970 :: "nat \<Rightarrow> int" where
  "days_from_1970 0 = 0"
| "days_from_1970 (Suc n) = days_from_1970 n + year_length (1970 + int n)"

primrec days_to_1970 :: "nat \<Rightarrow> int" where
  "days_to_1970 0 = 0"
| "days_to_1970 (Suc n) = days_to_1970 n + year_length (1970 - int (Suc n))"

definition days_before_year :: "int \<Rightarrow> int" where
  "days_before_year y =
     (if 1970 \<le> y then days_from_1970 (nat (y - 1970)) else - days_to_1970 (nat (1970 - y)))"

definition in_calendar_month :: "int \<Rightarrow> nat \<Rightarrow> int \<Rightarrow> bool" where
  "in_calendar_month y m d =
     (m < 12 \<and> days_before_year y + days_before_month y m \<le> d
      \<and> d < days_before_year y + days_before_month y (Suc m))"

text \<open>The shapes of a partition key: two decimal digits, and \<open>YYYY-MM\<close>.\<close>

definition two_digits :: "nat \<Rightarrow> string" where
  "two_digits n = [digit_char (n div 10), digit_char (n mod 10)]"

definition is_digit :: "char \<Rightarrow> bool" where
  "is_digit c = (48 \<le> (of_char c :: nat) \<and> (of_char c :: nat) \<le> 57)"

definition yyyy_mm :: "string \<Rightarrow> bool" where
  "yyyy_mm s =
     (length s = 7 \<and> list_all is_digit (take 4 s) \<and> s ! 4 = CHR ''-''
      \<and> list_all is_digit (drop 5 s))"

section \<open>Properties\<close>

subsection \<open>Validation in the submit route\<close>

lemma validation_iff:
  "post_inputdata tz now body w = (rejected, w) \<longleftrightarrow>
     (\<not> truthy (field body ''class'') \<or> field body ''isadd'' = JUndefined
      \<or> \<not> truthy (field body ''changescore'') \<or> \<not> truthy (field body ''note'')
      \<or> \<not> truthy (field body ''submitter''))"
  by (auto simp: post_inputdata_def rejected_def Let_def split: prod.splits sum.splits)

text \<open>
  C10. A request whose \<open>class\<close> or whose \<open>changescore\<close> is the number 0 is answered with
  the 400 validation failure, and nothing else happens: the two fields are tested by
  truthiness, and 0 is falsy.
\<close>

theorem zero_class_or_score_rejected:
  assumes "field body ''class'' = JNum 0 \<or> field body ''changescore'' = JNum 0"
  shows "post_inputdata tz now body w = (rejected, w)"
  using assms by (auto simp: post_inputdata_def rejected_def Let_def)

theorem zero_class_or_score_rejected_witness:
  "field zero_class_body ''class'' = JNum 0
   \<and> post_inputdata utc 1710000000000 zero_class_body (fresh_world False)
       = (rejected, fresh_world False)"
proof -
  have h: "field zero_class_body ''class'' = JNum 0"
    by (simp add: field_def zero_class_body_def)
  then have "field zero_class_body ''class'' = JNum 0
      \<or> field zero_class_body ''changescore'' = JNum 0"
    by simp
  from zero_class_or_score_rejected [OF this] h show ?thesis by simp
qed

text \<open>
  C7. A request that lacks \<open>note\<close>, or any other of the five required fields, is answered
  with the 400 validation failure and the world is left exactly as it was: no row, no
  schema object, no file, and no engine call is added to the record of calls.
\<close>

theorem missing_field_rejected:
  assumes "k \<in> {''class'', ''isadd'', ''changescore'', ''note'', ''submitter''}"
    and "body k = None"
  shows "post_inputdata tz now body w = (rejected, w)"
  using assms by (auto simp: post_inputdata_def rejected_def Let_def field_def)

theorem missing_field_rejected_witness:
  "''note'' \<in> {''class'', ''isadd'', ''changescore'', ''note'', ''submitter''}
   \<and> no_note_body ''note'' = None
   \<and> post_inputdata utc 1710000000000 no_note_body (fresh_world True)
       = (rejected, fresh_world True)
   \<and> calls (snd (post_inputdata utc 1710000000000 no_note_body (fresh_world True))) = []"
proof -
  have k: "''note'' \<in> {''class'', ''isadd'', ''changescore'', ''note'', ''submitter''}"
    by simp
  have n: "no_note_body ''note'' = None"
    by (simp add: no_note_body_def)
  have "post_inputdata utc 1710000000000 no_note_body (fresh_world True)
      = (rejected, fresh_world True)"
    using k n by (rule missing_field_rejected [where k = "''note''" and body = no_note_body])
  with k n show ?thesis by (simp add: fresh_world_def)
qed

subsection \<open>Startup\<close>

lemma ensure_dir_calls:
  "calls (ensure_dir w)
     = calls w @ (if db_dir w then [FsExistsSync] else [FsExistsSync, FsMkdirSync])"
  by (simp add: ensure_dir_def called_def Let_def)

lemma ensure_dir_db_dir [simp]: "db_dir (ensure_dir w)"
  by (simp add: ensure_dir_def called_def Let_def)

text \<open>
  C4. With the backend pinned to \<open>postgres\<close> and the server unreachable, initDatabase ends
  the process with exit code 1 after the one connection attempt, and sets up nothing else.
  Pinned to \<open>sqlite\<close>, it makes the embedded engine active and none of its calls is a
  connection attempt. With any other setting (\<open>auto\<close>) and the server unreachable, it
  makes sure the DB directory exists and records the embedded engine as the active one.
\<close>

theorem initDatabase_modes:
  "(\<not> pg_reachable w \<longrightarrow> initDatabase ''postgres'' w = (ProcessExit 1, called PoolConnect w))
   \<and> initDatabase ''sqlite'' w = (Ready, set_context Sqlite SqliteMarker (ensure_dir w))
   \<and> PoolConnect \<notin> set (new_calls w (snd (initDatabase ''sqlite'' w)))
   \<and> (\<not> pg_reachable w \<and> dbType \<noteq> ''postgres'' \<and> dbType \<noteq> ''sqlite'' \<longrightarrow>
        initDatabase dbType w
          = (Ready, set_context Sqlite SqliteMarker (ensure_dir (called PoolConnect w))))"
  by (simp add: initDatabase_def initPostgres_def initSqlite_def pool_connect_def
      new_calls_def set_context_def ensure_dir_calls)

theorem initDatabase_modes_witness:
  "\<not> pg_reachable (fresh_world False)
   \<and> DB_TYPE None \<noteq> ''postgres'' \<and> DB_TYPE None \<noteq> ''sqlite''
   \<and> fst (initDatabase ''postgres'' (fresh_world False)) = ProcessExit 1
   \<and> dbContext (snd (initDatabase ''postgres'' (fresh_world False))) = None
   \<and> files (snd (initDatabase ''postgres'' (fresh_world False))) = Map.empty
   \<and> calls (snd (initDatabase ''sqlite'' (fresh_world False))) = [FsExistsSync, FsMkdirSync]
   \<and> fst (initDatabase (DB_TYPE None) (fresh_world False)) = Ready
   \<and> dbContext (snd (initDatabase (DB_TYPE None) (fresh_world False)))
       = Some \<lparr>ctx_type = Sqlite, ctx_instance = SqliteMarker, isReady = True\<rparr>"
  using initDatabase_modes [of "fresh_world False" "DB_TYPE None"]
  by (simp add: fresh_world_def DB_TYPE_def called_def set_context_def ensure_dir_def Let_def)

subsection \<open>Frame rules of the engine operations\<close>

lemma called_simps [simp]:
  "calls (called c w) = calls w @ [c]"
  "dbContext (called c w) = dbContext w"
  "pg_reachable (called c w) = pg_reachable w"
  "pg_db (called c w) = pg_db w"
  "db_dir (called c w) = db_dir w"
  "files (called c w) = files w"
  by (simp_all add: called_def)

lemma set_file_simps [simp]:
  "calls (set_file f d w) = calls w"
  "dbContext (set_file f d w) = dbContext w"
  "pg_reachable (set_file f d w) = pg_reachable w"
  "pg_db (set_file f d w) = pg_db w"
  "db_dir (set_file f d w) = db_dir w"
  "files (set_file f d w) = (files w)(f \<mapsto> d)"
  by (simp_all add: set_file_def)

lemma file_db_simps [simp]:
  "file_db f (called c w) = file_db f w"
  "file_db f (set_file f d w) = d"
  "g \<noteq> f \<Longrightarrow> file_db f (set_file g d w) = file_db f w"
  by (simp_all add: file_db_def)

lemma getDbType_simps [simp]:
  "getDbType (called c w) = getDbType w"
  "getDbType (set_file f d w) = getDbType w"
  by (simp_all add: getDbType_def)

lemma name_taken_iff: "name_taken n d \<longleftrightarrow> (\<exists>k. (k, n) \<in> set (catalog d))"
  by (force simp: name_taken_def image_iff)

subsection \<open>Schema bootstrap\<close>

lemma ensureSqliteTable_again:
  assumes "ensureSqliteTable db w = (Inr (), w1)"
  shows "ensureSqliteTable db w1
           = (Inr (), w1\<lparr>calls := calls w1 @ [DbCall db CreateTable, DbCall db CheckIndex]\<rparr>)"
  using assms
  by (auto simp: ensureSqliteTable_def db_exec_create_table_def db_get_index_def
      db_exec_create_index_def Let_def has_table_def create_table_def create_index_def
      called_def set_file_def file_db_def
      split: if_splits prod.splits sum.splits)

lemma ensureSqliteTable_distinct:
  assumes "ensureSqliteTable db w = (Inr (), w1)" and "distinct (catalog (file_db db w))"
  shows "distinct (catalog (file_db db w1))"
  using assms
  by (auto simp: ensureSqliteTable_def db_exec_create_table_def db_get_index_def
      db_exec_create_index_def Let_def has_table_def create_table_def create_index_def
      name_taken_iff
      split: if_splits prod.splits sum.splits)

lemma ensurePostgresTable_again:
  assumes "ensurePostgresTable w = (Inr (), w1)"
  shows "ensurePostgresTable w1 = (Inr (), w1\<lparr>calls := calls w1 @ [ClientQuery CheckTable]\<rparr>)"
  using assms
  by (auto simp: ensurePostgresTable_def client_query_table_exists_def
      client_query_create_table_def client_query_create_index_def Let_def has_table_def
      create_table_def create_index_def called_def
      split: if_splits prod.splits sum.splits)

lemma ensurePostgresTable_distinct:
  assumes "ensurePostgresTable w = (Inr (), w1)" and "distinct (catalog (pg_db w))"
  shows "distinct (catalog (pg_db w1))"
  using assms
  by (auto simp: ensurePostgresTable_def client_query_table_exists_def
      client_query_create_table_def client_query_create_index_def Let_def has_table_def
      create_table_def create_index_def name_taken_iff
      split: if_splits prod.splits sum.splits)

text \<open>
  C6. When a bootstrap has gone through, running it again on the same target (the same
  partition file, or the shared table) goes through as well and changes nothing but the
  record of calls: it adds no table and no index. A catalogue without duplicates has none
  after the bootstrap either.
\<close>

theorem bootstrap_idempotent:
  "(ensureSqliteTable db w = (Inr (), w1) \<longrightarrow>
      ensureSqliteTable db w1
        = (Inr (), w1\<lparr>calls := calls w1 @ [DbCall db CreateTable, DbCall db CheckIndex]\<rparr>)
      \<and> (distinct (catalog (file_db db w)) \<longrightarrow> distinct (catalog (file_db db w1))))
   \<and> (ensurePostgresTable w = (Inr (), w2) \<longrightarrow>
      ensurePostgresTable w2 = (Inr (), w2\<lparr>calls := calls w2 @ [ClientQuery CheckTable]\<rparr>)
      \<and> (distinct (catalog (pg_db w)) \<longrightarrow> distinct (catalog (pg_db w2))))"
  using ensureSqliteTable_again ensureSqliteTable_distinct ensurePostgresTable_again
    ensurePostgresTable_distinct by blast

subsection \<open>The scenarios, evaluated\<close>

lemma sqlite_world_eq:
  "sqlite_world = \<lparr>dbContext = Some \<lparr>ctx_type = Sqlite, ctx_instance = SqliteMarker, isReady = True\<rparr>,
     pg_reachable = False, pg_db = empty_db, db_dir = True, files = Map.empty,
     calls = [FsExistsSync, FsMkdirSync]\<rparr>"
  by (simp add: sqlite_world_def initDatabase_def initSqlite_def ensure_dir_def Let_def
      called_def set_context_def fresh_world_def)

lemma postgres_world_eq:
  "postgres_world = \<lparr>dbContext = Some \<lparr>ctx_type = Postgres, ctx_instance = Pool, isReady = True\<rparr>,
     pg_reachable = True, pg_db = empty_db, db_dir = False, files = Map.empty,
     calls = [PoolConnect, ClientRelease]\<rparr>"
  by (simp add: postgres_world_def initDatabase_def initPostgres_def pool_connect_def
      client_release_def called_def set_context_def fresh_world_def)

lemma opened_world_eq:
  "opened_world = \<lparr>dbContext = Some \<lparr>ctx_type = Sqlite, ctx_instance = SqliteMarker, isReady = True\<rparr>,
     pg_reachable = False, pg_db = empty_db, db_dir = True, files = [march_db \<mapsto> empty_db],
     calls = [FsExistsSync, FsMkdirSync, DatabaseOpen march_db]\<rparr>"
  by (simp add: opened_world_def sqlite_world_eq Database_open_def Let_def called_def set_file_def)

lemma ensure_opened:
  "ensureSqliteTable march_db opened_world
     = (Inr (), \<lparr>dbContext = Some \<lparr>ctx_type = Sqlite, ctx_instance = SqliteMarker, isReady = True\<rparr>,
     pg_reachable = False, pg_db = empty_db, db_dir = True,
     files = [march_db \<mapsto> \<lparr>catalog = sqlite_schema, reports = [], seq = 0\<rparr>],
     calls = [FsExistsSync, FsMkdirSync, DatabaseOpen march_db, DbCall march_db CreateTable,
        DbCall march_db CheckIndex, DbCall march_db CreateIndex]\<rparr>)"
  by (simp add: opened_world_eq ensureSqliteTable_def db_exec_create_table_def db_get_index_def
      db_exec_create_index_def Let_def has_table_def create_table_def create_index_def
      called_def set_file_def file_db_def name_taken_def empty_db_def sqlite_schema_def)

lemma ensure_postgres_world:
  "ensurePostgresTable postgres_world
     = (Inr (), \<lparr>dbContext = Some \<lparr>ctx_type = Postgres, ctx_instance = Pool, isReady = True\<rparr>,
     pg_reachable = True, pg_db = \<lparr>catalog = pg_schema, reports = [], seq = 0\<rparr>,
     db_dir = False, files = Map.empty,
     calls = [PoolConnect, ClientRelease, ClientQuery CheckTable, ClientQuery CreateTable,
        ClientQuery CreateIndex]\<rparr>)"
  by (simp add: postgres_world_eq ensurePostgresTable_def client_query_table_exists_def
      client_query_create_table_def client_query_create_index_def Let_def has_table_def
      create_table_def create_index_def called_def name_taken_def empty_db_def pg_schema_def)

theorem bootstrap_idempotent_witness:
  "fst (ensureSqliteTable march_db opened_world) = Inr ()
   \<and> distinct (catalog (file_db march_db opened_world))
   \<and> fst (ensureSqliteTable march_db (snd (ensureSqliteTable march_db opened_world))) = Inr ()
   \<and> catalog (file_db march_db (snd (ensureSqliteTable march_db
         (snd (ensureSqliteTable march_db opened_world))))) = sqlite_schema
   \<and> fst (ensurePostgresTable postgres_world) = Inr ()
   \<and> distinct (catalog (pg_db postgres_world))
   \<and> fst (ensurePostgresTable (snd (ensurePostgresTable postgres_world))) = Inr ()
   \<and> catalog (pg_db (snd (ensurePostgresTable (snd (ensurePostgresTable postgres_world)))))
       = pg_schema"
proof -
  have s: "ensureSqliteTable march_db opened_world
      = (Inr (), snd (ensureSqliteTable march_db opened_world))"
    by (simp add: ensure_opened)
  have p: "ensurePostgresTable postgres_world = (Inr (), snd (ensurePostgresTable postgres_world))"
    by (simp add: ensure_postgres_world)
  have ds: "distinct (catalog (file_db march_db opened_world))"
    by (simp add: opened_world_eq file_db_def empty_db_def)
  have dp: "distinct (catalog (pg_db postgres_world))"
    by (simp add: postgres_world_eq empty_db_def)
  note i1 = bootstrap_idempotent [of march_db opened_world
      "snd (ensureSqliteTable march_db opened_world)" "snd (ensurePostgresTable opened_world)"]
  note i2 = bootstrap_idempotent [of march_db postgres_world
      "snd (ensureSqliteTable march_db postgres_world)" "snd (ensurePostgresTable postgres_world)"]
  from i1 s ds have
    "ensureSqliteTable march_db (snd (ensureSqliteTable march_db opened_world))
      = (Inr (), (snd (ensureSqliteTable march_db opened_world))
          \<lparr>calls := calls (snd (ensureSqliteTable march_db opened_world))
             @ [DbCall march_db CreateTable, DbCall march_db CheckIndex]\<rparr>)"
    by blast
  moreover from i2 p dp have
    "ensurePostgresTable (snd (ensurePostgresTable postgres_world))
      = (Inr (), (snd (ensurePostgresTable postgres_world))
          \<lparr>calls := calls (snd (ensurePostgresTable postgres_world))
             @ [ClientQuery CheckTable]\<rparr>)"
    by blast
  ultimately show ?thesis
    using ds dp by (simp add: ensure_opened ensure_postgres_world file_db_def)
qed

subsection \<open>What a bootstrap that goes through leaves behind\<close>

lemma ensure_dir_simps [simp]:
  "dbContext (ensure_dir w) = dbContext w"
  "pg_reachable (ensure_dir w) = pg_reachable w"
  "pg_db (ensure_dir w) = pg_db w"
  "files (ensure_dir w) = files w"
  "file_db f (ensure_dir w) = file_db f w"
  "getDbType (ensure_dir w) = getDbType w"
  by (simp_all add: ensure_dir_def Let_def file_db_def getDbType_def)



lemma ensureSqliteTable_has_table:
  assumes "ensureSqliteTable db w = (Inr u, w')"
  shows "has_table (file_db db w')"
  using assms
  by (auto simp: ensureSqliteTable_def db_exec_create_table_def
      db_get_index_def db_exec_create_index_def Let_def has_table_def create_table_def
      create_index_def split: if_splits prod.splits sum.splits)


subsection \<open>Opening a partition and querying it\<close>


lemma getSqliteDatabase_has_table:
  assumes "getSqliteDatabase p w = (Inr db, w')"
  shows "db = dbFileName p \<and> has_table (file_db db w')"
proof -
  from assms obtain w1 u where o: "Database_open (dbFileName p) (ensure_dir w) = (Inr db, w1)"
    and e: "ensureSqliteTable db w1 = (Inr u, w')"
    by (auto simp: getSqliteDatabase_def split: prod.splits sum.splits)
  from o have "db = dbFileName p"
    by (auto simp: Database_open_def Let_def split: if_splits option.splits)
  with ensureSqliteTable_has_table [OF e] show ?thesis by simp
qed




subsection \<open>Queries by partition\<close>










subsection \<open>Which operations keep the stored rows\<close>

lemma rows_kept_refl [simp]: "rows_kept w w"
  by (simp add: rows_kept_def)

lemma rows_kept_trans: "rows_kept w w1 \<Longrightarrow> rows_kept w1 w2 \<Longrightarrow> rows_kept w w2"
  by (simp add: rows_kept_def)

lemma rows_kept_called [simp]: "rows_kept w (called c w)"
  by (simp add: rows_kept_def)

lemma rows_kept_ensure_dir [simp]: "rows_kept w (ensure_dir w)"
  by (simp add: rows_kept_def)

lemma rows_kept_consistent:
  "rows_kept w w' \<Longrightarrow> store_consistent tz w \<Longrightarrow> store_consistent tz w'"
  by (simp add: rows_kept_def store_consistent_def)

lemma rows_kept_stored_rows: "rows_kept w w' \<Longrightarrow> stored_rows p w' = stored_rows p w"
  by (simp add: rows_kept_def stored_rows_def getDbType_def)

lemma file_db_set_file: "file_db f (set_file g d w) = (if f = g then d else file_db f w)"
  by (simp add: file_db_def)

lemma Database_open_kept: "Database_open f w = (r, w') \<Longrightarrow> rows_kept w w'"
  by (auto simp: Database_open_def Let_def rows_kept_def file_db_set_file file_db_def
      split: if_splits option.splits)

lemma ensureSqliteTable_kept: "ensureSqliteTable db w = (r, w') \<Longrightarrow> rows_kept w w'"
  by (auto simp: ensureSqliteTable_def db_exec_create_table_def db_get_index_def
      db_exec_create_index_def Let_def create_table_def create_index_def rows_kept_def
      file_db_set_file split: if_splits prod.splits sum.splits)

lemma getSqliteDatabase_kept:
  assumes "getSqliteDatabase p w = (r, w')"
  shows "rows_kept w w'"
proof -
  obtain r1 w1 where o: "Database_open (dbFileName p) (ensure_dir w) = (r1, w1)"
    by (cases "Database_open (dbFileName p) (ensure_dir w)")
  have k1: "rows_kept w w1"
    using rows_kept_trans [OF rows_kept_ensure_dir Database_open_kept [OF o]] .
  show ?thesis
  proof (cases r1)
    case (Inl e)
    with assms o have "w' = w1" by (simp add: getSqliteDatabase_def)
    with k1 show ?thesis by simp
  next
    case (Inr db)
    obtain r2 w2 where e: "ensureSqliteTable db w1 = (r2, w2)"
      by (cases "ensureSqliteTable db w1")
    with assms o Inr have "w' = w2"
      by (auto simp: getSqliteDatabase_def split: sum.splits)
    with rows_kept_trans [OF k1 ensureSqliteTable_kept [OF e]] show ?thesis by simp
  qed
qed

lemma ensurePostgresTable_kept: "ensurePostgresTable w = (r, w') \<Longrightarrow> rows_kept w w'"
  by (auto simp: ensurePostgresTable_def client_query_table_exists_def
      client_query_create_table_def client_query_create_index_def Let_def create_table_def
      create_index_def rows_kept_def file_db_def split: if_splits prod.splits sum.splits)

lemma instance_connect_kept: "instance_connect w = (r, w') \<Longrightarrow> rows_kept w w'"
  by (auto simp: instance_connect_def pool_connect_def
      split: option.splits db_instance.splits if_splits)

lemma client_query_insert_Inl:
  "client_query_insert cls b sc t n s mp w = (Inl e, w') \<Longrightarrow> rows_kept w w'"
  by (auto simp: client_query_insert_def Let_def rows_kept_def file_db_def
      split: if_splits sum.splits)

lemma client_query_insert_Inr:
  assumes "client_query_insert cls b sc t n s mp w = (Inr i, w')"
  shows "\<exists>row. reports (pg_db w') = reports (pg_db w) @ [row] \<and> r_id row = i
     \<and> r_submittime row = t \<and> r_month_partition row = mp \<and> r_isadd row = SqlBool b
     \<and> files w' = files w \<and> dbContext w' = dbContext w"
  using assms
  by (auto simp: client_query_insert_def Let_def insert_row_def split: if_splits sum.splits)

lemma db_run_insert_Inl:
  "db_run_insert db cls b sc t n s mp w = (Inl e, w') \<Longrightarrow> rows_kept w w'"
  by (auto simp: db_run_insert_def Let_def rows_kept_def
      split: if_splits option.splits)

lemma db_run_insert_Inr:
  assumes "db_run_insert db cls b sc t n s mp w = (Inr i, w')"
  shows "\<exists>row. reports (file_db db w') = reports (file_db db w) @ [row] \<and> r_id row = i
     \<and> r_submittime row = t \<and> r_month_partition row = mp \<and> r_isadd row = SqlInt b
     \<and> (\<forall>f. f \<noteq> db \<longrightarrow> file_db f w' = file_db f w)
     \<and> pg_db w' = pg_db w \<and> dbContext w' = dbContext w"
  using assms
  by (auto simp: db_run_insert_def Let_def insert_row_def file_db_set_file
      split: if_splits option.splits)

subsection \<open>What a submission does to the stores\<close>

lemma rows_kept_release [simp]: "rows_kept w (client_release w')  = rows_kept w w'"
  by (simp add: rows_kept_def client_release_def)

lemma rows_kept_close [simp]: "rows_kept w (db_close db w')  = rows_kept w w'"
  by (simp add: rows_kept_def db_close_def)

lemma addReport_postgres:
  assumes a: "addReport tz now data w = (r, w')" and t: "getDbType w = Inr Postgres"
  shows "(\<forall>e. r = Inl e \<longrightarrow> rows_kept w w')
     \<and> (\<forall>res. r = Inr res \<longrightarrow>
          res_database res = getMonthPartition tz now \<and> res_submittime res = now
          \<and> dbContext w' = dbContext w
          \<and> (\<forall>f. reports (file_db f w') = reports (file_db f w))
          \<and> (\<exists>row. reports (pg_db w') = reports (pg_db w) @ [row]
                \<and> r_id row = res_id res \<and> r_submittime row = now
                \<and> r_month_partition row = getMonthPartition tz now
                \<and> r_isadd row = SqlBool (truthy (d_isadd data))))"
proof -
  obtain r1 w1 where c: "instance_connect w = (r1, w1)"
    by (cases "instance_connect w")
  note k1 = instance_connect_kept [OF c]
  show ?thesis
  proof (cases r1)
    case (Inl e)
    with a t c have "r = Inl e" "w' = w1"
      by (simp_all add: addReport_def Let_def)
    with k1 show ?thesis by simp
  next
    case (Inr u)
    obtain r2 w2 where e: "ensurePostgresTable w1 = (r2, w2)"
      by (cases "ensurePostgresTable w1")
    note k2 = rows_kept_trans [OF k1 ensurePostgresTable_kept [OF e]]
    show ?thesis
    proof (cases r2)
      case (Inl e2)
      with a t c Inr e have "r = Inl e2" "w' = client_release w2"
        by (simp_all add: addReport_def Let_def)
      with k2 show ?thesis by simp
    next
      case Inr2: (Inr u2)
      obtain r3 w3 where i: "client_query_insert (parseInt (d_class data))
          (truthy (d_isadd data)) (parseInt (d_changescore data)) now (d_note data)
          (d_submitter data) (getMonthPartition tz now) w2 = (r3, w3)"
        by (cases "client_query_insert (parseInt (d_class data))
          (truthy (d_isadd data)) (parseInt (d_changescore data)) now (d_note data)
          (d_submitter data) (getMonthPartition tz now) w2")
      show ?thesis
      proof (cases r3)
        case (Inl e3)
        with a t c Inr e Inr2 i have "r = Inl e3" "w' = client_release w3"
          by (simp_all add: addReport_def Let_def)
        moreover from i Inl have "rows_kept w2 w3"
          using client_query_insert_Inl by blast
        ultimately show ?thesis
          using rows_kept_trans [OF k2] by simp
      next
        case Inr3: (Inr n)
        with a t c Inr e Inr2 i have
          r: "r = Inr \<lparr>res_id = n, res_database = getMonthPartition tz now,
                res_submittime = now\<rparr>"
          and w': "w' = client_release w3"
          by (simp_all add: addReport_def Let_def)
        from i Inr3 client_query_insert_Inr obtain row where
          row: "reports (pg_db w3) = reports (pg_db w2) @ [row]" "r_id row = n"
            "r_submittime row = now" "r_month_partition row = getMonthPartition tz now"
            "r_isadd row = SqlBool (truthy (d_isadd data))"
            "files w3 = files w2" "dbContext w3 = dbContext w2"
          by blast
        from row(6) have f: "\<And>f. file_db f w3 = file_db f w2"
          by (simp add: file_db_def)
        from k2 r w' row f show ?thesis
          by (simp add: rows_kept_def client_release_def file_db_def)
      qed
    qed
  qed
qed

lemma addReport_sqlite:
  assumes a: "addReport tz now data w = (r, w')" and t: "getDbType w = Inr Sqlite"
  shows "(\<forall>e. r = Inl e \<longrightarrow> rows_kept w w')
     \<and> (\<forall>res. r = Inr res \<longrightarrow>
          res_database res = getMonthPartition tz now \<and> res_submittime res = now
          \<and> dbContext w' = dbContext w
          \<and> reports (pg_db w') = reports (pg_db w)
          \<and> (\<forall>f. f \<noteq> dbFileName (getMonthPartition tz now) \<longrightarrow>
                 reports (file_db f w') = reports (file_db f w))
          \<and> (\<exists>row. reports (file_db (dbFileName (getMonthPartition tz now)) w')
                   = reports (file_db (dbFileName (getMonthPartition tz now)) w) @ [row]
                \<and> r_id row = res_id res \<and> r_submittime row = now
                \<and> r_month_partition row = getMonthPartition tz now
                \<and> r_isadd row = SqlInt (if truthy (d_isadd data) then 1 else 0)))"
proof -
  let ?mp = "getMonthPartition tz now"
  obtain r1 w1 where g: "getSqliteDatabase ?mp w = (r1, w1)"
    by (cases "getSqliteDatabase ?mp w")
  note k1 = getSqliteDatabase_kept [OF g]
  show ?thesis
  proof (cases r1)
    case (Inl e)
    with a t g have "r = Inl e" "w' = w1"
      by (simp_all add: addReport_def Let_def)
    with k1 show ?thesis by simp
  next
    case (Inr db)
    with g getSqliteDatabase_has_table have db: "db = dbFileName ?mp"
      by blast
    obtain r2 w2 where i: "db_run_insert db (parseInt (d_class data))
        (if truthy (d_isadd data) then 1 else 0) (parseInt (d_changescore data)) now
        (d_note data) (d_submitter data) ?mp w1 = (r2, w2)"
      by (cases "db_run_insert db (parseInt (d_class data))
        (if truthy (d_isadd data) then 1 else 0) (parseInt (d_changescore data)) now
        (d_note data) (d_submitter data) ?mp w1")
    show ?thesis
    proof (cases r2)
      case (Inl e2)
      with a t g Inr i have "r = Inl e2" "w' = db_close db w2"
        by (simp_all add: addReport_def Let_def)
      moreover from i Inl have "rows_kept w1 w2"
        using db_run_insert_Inl by blast
      ultimately show ?thesis
        using rows_kept_trans [OF k1] by simp
    next
      case Inr2: (Inr n)
      with a t g Inr i have
        r: "r = Inr \<lparr>res_id = n, res_database = ?mp, res_submittime = now\<rparr>"
        and w': "w' = db_close db w2"
        by (simp_all add: addReport_def Let_def)
      from i Inr2 db_run_insert_Inr obtain row where
        row: "reports (file_db db w2) = reports (file_db db w1) @ [row]" "r_id row = n"
          "r_submittime row = now" "r_month_partition row = ?mp"
          "r_isadd row = SqlInt (if truthy (d_isadd data) then 1 else 0)"
          "\<forall>f. f \<noteq> db \<longrightarrow> file_db f w2 = file_db f w1"
          "pg_db w2 = pg_db w1" "dbContext w2 = dbContext w1"
        by blast
      from k1 r w' row db show ?thesis
        by (simp add: rows_kept_def db_close_def file_db_def)
    qed
  qed
qed

subsection \<open>Submissions\<close>

text \<open>
  C1. Whenever addReport succeeds, on either engine, the store that serves the returned
  partition has gained exactly one row; that row carries the returned id, the returned
  submit time and the returned partition, and its partition column is getMonthPartition
  of its own submit time. If every stored row had that property before, every stored row
  has it afterwards.
\<close>

theorem submit_partition_matches_time:
  assumes "addReport tz now data w = (Inr res, w')"
  shows "(\<exists>row. stored_rows (res_database res) w' = stored_rows (res_database res) w @ [row]
            \<and> r_id row = res_id res \<and> r_submittime row = res_submittime res
            \<and> r_month_partition row = res_database res
            \<and> r_month_partition row = getMonthPartition tz (r_submittime row))
         \<and> (store_consistent tz w \<longrightarrow> store_consistent tz w')"
proof -
  from assms obtain c where c: "dbContext w = Some c"
    by (auto simp: addReport_def getDbType_def Let_def split: option.splits)
  show ?thesis
  proof (cases "ctx_type c")
    case Postgres
    with c have t: "getDbType w = Inr Postgres" by (simp add: getDbType_def)
    from addReport_postgres [OF assms t] obtain row where
      r: "res_database res = getMonthPartition tz now" "res_submittime res = now"
        "dbContext w' = dbContext w" "\<forall>f. reports (file_db f w') = reports (file_db f w)"
        "reports (pg_db w') = reports (pg_db w) @ [row]" "r_id row = res_id res"
        "r_submittime row = now" "r_month_partition row = getMonthPartition tz now"
      by auto
    from t r(3) have t': "getDbType w' = Inr Postgres" by (simp add: getDbType_def)
    have "store_consistent tz w \<longrightarrow> store_consistent tz w'"
      using r by (simp add: store_consistent_def row_consistent_def)
    moreover have "stored_rows (res_database res) w' = stored_rows (res_database res) w @ [row]"
      using t t' r(5) by (simp add: stored_rows_def)
    ultimately show ?thesis using r by auto
  next
    case Sqlite
    with c have t: "getDbType w = Inr Sqlite" by (simp add: getDbType_def)
    let ?f = "dbFileName (getMonthPartition tz now)"
    from addReport_sqlite [OF assms t] obtain row where
      r: "res_database res = getMonthPartition tz now" "res_submittime res = now"
        "dbContext w' = dbContext w" "reports (pg_db w') = reports (pg_db w)"
        "\<forall>f. f \<noteq> ?f \<longrightarrow> reports (file_db f w') = reports (file_db f w)"
        "reports (file_db ?f w') = reports (file_db ?f w) @ [row]" "r_id row = res_id res"
        "r_submittime row = now" "r_month_partition row = getMonthPartition tz now"
      by auto
    from t r(3) have t': "getDbType w' = Inr Sqlite" by (simp add: getDbType_def)
    have "store_consistent tz w \<longrightarrow> store_consistent tz w'"
    proof
      assume s: "store_consistent tz w"
      have "\<forall>r \<in> set (reports (file_db f w')). row_consistent tz r" for f
      proof (cases "f = ?f")
        case True
        with s r(6,8,9) show ?thesis
          by (auto simp: store_consistent_def row_consistent_def)
      next
        case False
        with s r(5) show ?thesis
          by (simp add: store_consistent_def)
      qed
      with s r(4) show "store_consistent tz w'"
        by (simp add: store_consistent_def)
    qed
    moreover have "stored_rows (res_database res) w' = stored_rows (res_database res) w @ [row]"
      using t t' r(1,6) by (simp add: stored_rows_def)
    ultimately show ?thesis using r by auto
  qed
qed


theorem submit_partition_matches_time_witness:
  "fst (addReport utc 1710000000000 valid_data sqlite_world) = Inr march_result
   \<and> map r_month_partition
       (stored_rows ''2024-03'' (snd (addReport utc 1710000000000 valid_data sqlite_world)))
       = [getMonthPartition utc 1710000000000]
   \<and> store_consistent utc (snd (addReport utc 1710000000000 valid_data sqlite_world))
   \<and> fst (addReport utc 1710000000000 valid_data postgres_world) = Inr march_result
   \<and> map r_month_partition
       (stored_rows ''2024-03'' (snd (addReport utc 1710000000000 valid_data postgres_world)))
       = [getMonthPartition utc 1710000000000]
   \<and> store_consistent utc (snd (addReport utc 1710000000000 valid_data postgres_world))"
proof -
  let ?s = "addReport utc 1710000000000 valid_data sqlite_world"
  let ?p = "addReport utc 1710000000000 valid_data postgres_world"
  have fs: "fst ?s = Inr march_result" by code_simp
  have fp: "fst ?p = Inr march_result" by code_simp
  have es: "?s = (Inr march_result, snd ?s)" using fs by (simp add: prod_eq_iff)
  have ep: "?p = (Inr march_result, snd ?p)" using fp by (simp add: prod_eq_iff)
  have cs: "store_consistent utc sqlite_world"
    by (simp add: store_consistent_def sqlite_world_eq file_db_def empty_db_def)
  have cp: "store_consistent utc postgres_world"
    by (simp add: store_consistent_def postgres_world_eq file_db_def empty_db_def)
  have r0: "stored_rows ''2024-03'' sqlite_world = []" "stored_rows ''2024-03'' postgres_world = []"
    by (simp_all add: stored_rows_def sqlite_world_eq postgres_world_eq file_db_def empty_db_def)
  have d: "res_database march_result = ''2024-03''" "res_submittime march_result = 1710000000000"
    by (simp_all add: march_result_def)
  from submit_partition_matches_time [OF es] cs r0 d
  have "map r_month_partition (stored_rows ''2024-03'' (snd ?s)) = [getMonthPartition utc 1710000000000]
     \<and> store_consistent utc (snd ?s)"
    by auto
  moreover from submit_partition_matches_time [OF ep] cp r0 d
  have "map r_month_partition (stored_rows ''2024-03'' (snd ?p)) = [getMonthPartition utc 1710000000000]
     \<and> store_consistent utc (snd ?p)"
    by auto
  ultimately show ?thesis using fs fp by simp
qed

lemma field_upd [simp]:
  "field (b(k \<mapsto> v)) k' = (if k' = k then v else field b k')"
  "field (b(k := None)) k' = (if k' = k then JUndefined else field b k')"
  by (simp_all add: field_def)



subsection \<open>The partition key: years and months of the Date built-ins\<close>

lemma div_bounds:
  fixes a c :: int
  assumes "0 < c"
  shows "c * (a div c) \<le> a" and "a < c * (a div c) + c"
proof -
  have "c * (a div c) + a mod c = a" by simp
  moreover have "0 \<le> a mod c" "a mod c < c" using assms by simp_all
  ultimately show "c * (a div c) \<le> a" and "a < c * (a div c) + c" by linarith+
qed

lemma div_succ:
  fixes a c :: int
  assumes "1 < c"
  shows "(a + 1) div c = a div c + (if c dvd a + 1 then 1 else 0)"
proof (cases "a mod c + 1 = c")
  case True
  have e: "c * (a div c) + a mod c = a" by simp
  have "a + 1 = c * (a div c) + c" using e True by linarith
  then have q: "a + 1 = c * (a div c + 1) + 0" by (simp add: algebra_simps)
  have z: "(0::int) \<le> 0" "0 < c" using assms by simp_all
  have "(a + 1) div c = a div c + 1"
    by (rule int_div_pos_eq [OF q z])
  moreover have "(a + 1) mod c = 0"
    by (rule int_mod_pos_eq [OF q z])
  ultimately show ?thesis by (simp add: dvd_eq_mod_eq_0)
next
  case False
  have b: "0 \<le> a mod c" "a mod c < c" using assms by simp_all
  have e: "c * (a div c) + a mod c = a" by simp
  have q: "a + 1 = c * (a div c) + (a mod c + 1)"
    using e by linarith
  have z: "0 \<le> a mod c + 1" "a mod c + 1 < c" using b False by linarith+
  have "(a + 1) div c = a div c"
    by (rule int_div_pos_eq [OF q z])
  moreover have "(a + 1) mod c = a mod c + 1"
    by (rule int_mod_pos_eq [OF q z])
  ultimately show ?thesis using b by (simp add: dvd_eq_mod_eq_0)
qed

lemma DaysInYear_dvd:
  "DaysInYear y = 365 + (if 4 dvd y then 1 else 0) - (if 100 dvd y then 1 else 0)
     + (if 400 dvd y then 1 else 0)"
proof -
  have a: "400 dvd y \<Longrightarrow> 100 dvd y" and b: "100 dvd y \<Longrightarrow> 4 dvd y"
    by (auto elim: dvd_trans [rotated])
  show ?thesis
    using a b by (auto simp: DaysInYear_def dvd_eq_mod_eq_0 [symmetric])
qed

lemma DayFromYear_step: "DayFromYear (y + 1) = DayFromYear y + DaysInYear y"
proof -
  have 1: "(y + 1 - 1969) div 4 = (y - 1969) div 4 + (if 4 dvd y then 1 else 0)"
  proof -
    have "4 dvd (y - 1969 + 1) \<longleftrightarrow> 4 dvd y"
      using dvd_diff_left_iff [of 4 "1968" y] by (simp add: algebra_simps)
    with div_succ [of 4 "y - 1969"] show ?thesis by (simp add: algebra_simps)
  qed
  have 2: "(y + 1 - 1901) div 100 = (y - 1901) div 100 + (if 100 dvd y then 1 else 0)"
  proof -
    have "100 dvd (y - 1901 + 1) \<longleftrightarrow> 100 dvd y"
      using dvd_diff_left_iff [of 100 "1900" y] by (simp add: algebra_simps)
    with div_succ [of 100 "y - 1901"] show ?thesis by (simp add: algebra_simps)
  qed
  have 3: "(y + 1 - 1601) div 400 = (y - 1601) div 400 + (if 400 dvd y then 1 else 0)"
  proof -
    have "400 dvd (y - 1601 + 1) \<longleftrightarrow> 400 dvd y"
      using dvd_diff_left_iff [of 400 "1600" y] by (simp add: algebra_simps)
    with div_succ [of 400 "y - 1601"] show ?thesis by (simp add: algebra_simps)
  qed
  show ?thesis
    unfolding DayFromYear_def DaysInYear_dvd 1 2 3 by (simp add: algebra_simps)
qed


lemma DaysInYear_range: "DaysInYear y = 365 \<or> DaysInYear y = 366"
  by (simp add: DaysInYear_def)

lemma DayFromYear_less_succ: "DayFromYear y < DayFromYear (y + 1)"
  using DaysInYear_range [of y] by (auto simp: DayFromYear_step)

lemma DayFromYear_mono:
  assumes "y \<le> z"
  shows "DayFromYear y \<le> DayFromYear z"
  using assms
proof (induction z rule: int_ge_induct)
  case base
  show ?case by simp
next
  case (step i)
  with DayFromYear_less_succ [of i] show ?case by simp
qed

lemma DayFromYear_le_iff: "DayFromYear y \<le> DayFromYear z \<longleftrightarrow> y \<le> z"
proof
  assume a: "DayFromYear y \<le> DayFromYear z"
  show "y \<le> z"
  proof (rule ccontr)
    assume "\<not> y \<le> z"
    then have "z + 1 \<le> y" by simp
    from DayFromYear_mono [OF this] DayFromYear_less_succ [of z] a show False by simp
  qed
qed (rule DayFromYear_mono)

lemma DayFromYear_approx:
  "146097 * (y - 1970) - 1000 < 400 * DayFromYear y"
  "400 * DayFromYear y < 146097 * (y - 1970) + 1000"
proof -
  define a where "a = (y - 1969) div 4"
  define b where "b = (y - 1901) div 100"
  define c where "c = (y - 1601) div 400"
  have "4 * a \<le> y - 1969" "y - 1969 < 4 * a + 4"
    unfolding a_def using div_bounds [of 4 "y - 1969"] by simp_all
  moreover have "100 * b \<le> y - 1901" "y - 1901 < 100 * b + 100"
    unfolding b_def using div_bounds [of 100 "y - 1901"] by simp_all
  moreover have "400 * c \<le> y - 1601" "y - 1601 < 400 * c + 400"
    unfolding c_def using div_bounds [of 400 "y - 1601"] by simp_all
  moreover have "DayFromYear y = 365 * (y - 1970) + a - b + c"
    by (simp add: DayFromYear_def a_def b_def c_def)
  ultimately have "146097 * (y - 1970) - 1000 < 400 * DayFromYear y
      \<and> 400 * DayFromYear y < 146097 * (y - 1970) + 1000"
    by simp
  then show "146097 * (y - 1970) - 1000 < 400 * DayFromYear y"
    and "400 * DayFromYear y < 146097 * (y - 1970) + 1000"
    by simp_all
qed

lemma YearFromTime_day:
  "DayFromYear (YearFromTime t) \<le> Day t \<and> Day t < DayFromYear (YearFromTime t + 1)"
proof -
  define d where "d = Day t"
  define e where "e = (d * 10000) div 3652425"
  define y where "y = 1970 + e"
  have e1: "3652425 * e \<le> 10000 * d" and e2: "10000 * d < 3652425 * e + 3652425"
    unfolding e_def using div_bounds [of 3652425 "d * 10000"] by simp_all
  have "400 * DayFromYear (y - 1) < 146097 * e - 145097"
    using DayFromYear_approx(2) [of "y - 1"] by (simp add: y_def)
  with e1 have lo: "DayFromYear (y - 1) \<le> d"
    by linarith
  have "146097 * e + 291194 < 400 * DayFromYear (y + 1 + 1) + 1000"
    using DayFromYear_approx(1) [of "y + 1 + 1"] by (simp add: y_def)
  with e2 have hi: "d < DayFromYear (y + 1 + 1)"
    by linarith
  have Y: "YearFromTime t = (if d < DayFromYear y then y - 1
      else if DayFromYear (y + 1) \<le> d then y + 1 else y)"
    by (simp add: YearFromTime_def Let_def d_def e_def y_def)
  show ?thesis
    unfolding Y d_def [symmetric] using lo hi by auto
qed

lemma TimeFromYear_le_iff: "TimeFromYear y \<le> t \<longleftrightarrow> DayFromYear y \<le> Day t"
proof -
  define q where "q = t div 86400000"
  have "86400000 * q \<le> t" "t < 86400000 * q + 86400000"
    unfolding q_def using div_bounds [of 86400000 t] by simp_all
  then have "86400000 * DayFromYear y \<le> t \<longleftrightarrow> DayFromYear y \<le> q"
    by linarith
  then show ?thesis
    by (simp add: TimeFromYear_def Day_def msPerDay_def q_def)
qed

lemma YearFromTime_bounds:
  "TimeFromYear (YearFromTime t) \<le> t \<and> (\<forall>y. TimeFromYear y \<le> t \<longrightarrow> y \<le> YearFromTime t)"
proof (intro conjI allI impI)
  show "TimeFromYear (YearFromTime t) \<le> t"
    using YearFromTime_day [of t] by (simp add: TimeFromYear_le_iff)
next
  fix y assume "TimeFromYear y \<le> t"
  then have "DayFromYear y \<le> Day t" by (simp add: TimeFromYear_le_iff)
  with YearFromTime_day [of t] have "DayFromYear y < DayFromYear (YearFromTime t + 1)"
    by simp
  then have "\<not> YearFromTime t + 1 \<le> y"
    using DayFromYear_le_iff [of "YearFromTime t + 1" y] by simp
  then show "y \<le> YearFromTime t" by simp
qed

lemma DayWithinYear_range:
  "0 \<le> DayWithinYear t \<and> DayWithinYear t < DaysInYear (YearFromTime t)"
  using YearFromTime_day [of t] by (simp add: DayWithinYear_def DayFromYear_step)


subsection \<open>The calendar\<close>

lemma leap_year_iff: "leap_year y \<longleftrightarrow> DaysInYear y = 366"
proof -
  have a: "400 dvd y \<Longrightarrow> 100 dvd y" and b: "100 dvd y \<Longrightarrow> 4 dvd y"
    by (auto elim: dvd_trans [rotated])
  show ?thesis
    using a b by (auto simp: leap_year_def DaysInYear_dvd)
qed

lemma year_length_eq: "year_length y = DaysInYear y"
  using DaysInYear_range [of y]
  by (auto simp: year_length_def month_lengths_def leap_year_iff)

lemma days_from_1970_eq: "days_from_1970 n = DayFromYear (1970 + int n)"
proof (induction n)
  case 0
  show ?case by (simp add: DayFromYear_def)
next
  case (Suc n)
  have "DayFromYear (1970 + int (Suc n))
      = DayFromYear (1970 + int n) + DaysInYear (1970 + int n)"
    using DayFromYear_step [of "1970 + int n"] by (simp add: algebra_simps)
  with Suc show ?case
    by (simp add: year_length_eq)
qed

lemma days_to_1970_eq: "days_to_1970 n = - DayFromYear (1970 - int n)"
proof (induction n)
  case 0
  show ?case by (simp add: DayFromYear_def)
next
  case (Suc n)
  have "DayFromYear (1970 - int n)
      = DayFromYear (1970 - int (Suc n)) + DaysInYear (1970 - int (Suc n))"
    using DayFromYear_step [of "1970 - int (Suc n)"] by (simp add: algebra_simps)
  with Suc show ?case
    by (simp add: year_length_eq)
qed

lemma days_before_year_eq: "days_before_year y = DayFromYear y"
  by (simp add: days_before_year_def days_from_1970_eq days_to_1970_eq)

lemma MonthFromTime_range: "0 \<le> MonthFromTime t \<and> MonthFromTime t \<le> 11"
  by (simp add: MonthFromTime_def Let_def)

lemma MonthFromTime_calendar:
  "in_calendar_month (YearFromTime t) (nat (MonthFromTime t)) (Day t)"
proof -
  define d where "d = DayWithinYear t"
  have D: "Day t = DayFromYear (YearFromTime t) + d"
    by (simp add: d_def DayWithinYear_def)
  have r: "0 \<le> d" "d < DaysInYear (YearFromTime t)"
    using DayWithinYear_range [of t] by (simp_all add: d_def)
  show ?thesis
  proof (cases "leap_year (YearFromTime t)")
    case True
    then have l: "InLeapYear t" "DaysInYear (YearFromTime t) = 366"
      by (simp_all add: InLeapYear_def leap_year_iff)
    show ?thesis
      using r l True
      by (simp add: in_calendar_month_def days_before_year_eq D days_before_month_def
          month_lengths_def MonthFromTime_def Let_def d_def [symmetric])
  next
    case False
    then have l: "\<not> InLeapYear t" "DaysInYear (YearFromTime t) = 365"
      using DaysInYear_range [of "YearFromTime t"]
      by (auto simp: InLeapYear_def leap_year_iff)
    show ?thesis
      using r l False
      by (simp add: in_calendar_month_def days_before_year_eq D days_before_month_def
          month_lengths_def MonthFromTime_def Let_def d_def [symmetric])
  qed
qed


lemma days_before_month_mono:
  assumes "m \<le> n"
  shows "days_before_month y m \<le> days_before_month y n"
proof -
  have "\<forall>x \<in> set (month_lengths y). 0 \<le> x"
    by (simp add: month_lengths_def)
  then have p: "\<forall>x \<in> set (drop m (take n (month_lengths y))). 0 \<le> x"
    by (meson in_set_dropD in_set_takeD)
  have "take n (month_lengths y) = take m (take n (month_lengths y)) @ drop m (take n (month_lengths y))"
    by (rule append_take_drop_id [symmetric])
  also have "take m (take n (month_lengths y)) = take m (month_lengths y)"
    using assms by (simp add: min_def)
  finally have "sum_list (take n (month_lengths y))
      = sum_list (take m (month_lengths y) @ drop m (take n (month_lengths y)))"
    by (rule arg_cong)
  then have "days_before_month y n
      = days_before_month y m + sum_list (drop m (take n (month_lengths y)))"
    by (simp add: days_before_month_def)
  with sum_list_nonneg [of "drop m (take n (month_lengths y))"] p show ?thesis
    by simp
qed

lemma days_before_month_ends:
  "days_before_month y 0 = 0" "days_before_month y 12 = DaysInYear y"
  using year_length_eq [of y]
  by (simp_all add: days_before_month_def year_length_def month_lengths_def)

text \<open>A day lies in one month of one year only.\<close>

lemma in_calendar_month_unique:
  assumes a: "in_calendar_month y m d" and b: "in_calendar_month y' m' d"
  shows "y = y' \<and> m = m'"
proof -
  have r: "DayFromYear z \<le> d \<and> d < DayFromYear (z + 1)" if "in_calendar_month z k d" for z k
  proof -
    from that have k: "k < 12" by (simp add: in_calendar_month_def)
    have "0 \<le> days_before_month z k"
      using days_before_month_mono [of 0 k z] by (simp add: days_before_month_ends)
    moreover have "days_before_month z (Suc k) \<le> DaysInYear z"
      using days_before_month_mono [of "Suc k" 12 z] k by (simp add: days_before_month_ends)
    ultimately show ?thesis
      using that by (simp add: in_calendar_month_def days_before_year_eq DayFromYear_step)
  qed
  have y: "y = y'"
  proof (rule ccontr)
    assume "y \<noteq> y'"
    then consider "y + 1 \<le> y'" | "y' + 1 \<le> y" by linarith
    then show False
    proof cases
      case 1
      from DayFromYear_mono [OF 1] r [OF a] r [OF b] show False by simp
    next
      case 2
      from DayFromYear_mono [OF 2] r [OF a] r [OF b] show False by simp
    qed
  qed
  have "m = m'"
  proof (rule ccontr)
    assume "m \<noteq> m'"
    then consider "Suc m \<le> m'" | "Suc m' \<le> m" by linarith
    then show False
    proof cases
      case 1
      from days_before_month_mono [OF 1, of y] a b y show False
        by (simp add: in_calendar_month_def)
    next
      case 2
      from days_before_month_mono [OF 2, of y] a b y show False
        by (simp add: in_calendar_month_def)
    qed
  qed
  with y show ?thesis by simp
qed

subsection \<open>The key as a string\<close>

lemma nat_digits_small: "n < 10 \<Longrightarrow> nat_digits n = [digit_char n]"
  by (subst nat_digits.simps) simp

lemma nat_digits_large: "10 \<le> n \<Longrightarrow> nat_digits n = nat_digits (n div 10) @ [digit_char (n mod 10)]"
  by (subst nat_digits.simps) simp

lemma nat_digits_two:
  assumes "10 \<le> n" "n < 100"
  shows "nat_digits n = [digit_char (n div 10), digit_char (n mod 10)]"
proof -
  from assms have "n div 10 < 10" by simp
  with assms show ?thesis
    by (simp add: nat_digits_large nat_digits_small)
qed

lemma nat_digits_four:
  assumes "1000 \<le> n" "n < 10000"
  shows "nat_digits n = [digit_char (n div 1000), digit_char (n div 100 mod 10),
     digit_char (n div 10 mod 10), digit_char (n mod 10)]"
proof -
  define k where "k = n div 100"
  have k: "10 \<le> k" "k < 100" using assms by (simp_all add: k_def)
  have k10: "k div 10 = n div 1000" by (simp add: k_def div_mult2_eq [symmetric])
  have q: "n div 10 div 10 = k" by (simp add: k_def div_mult2_eq [symmetric])
  have a: "10 \<le> n" "10 \<le> n div 10" using assms by simp_all
  have "nat_digits n = nat_digits (n div 10) @ [digit_char (n mod 10)]"
    using a(1) by (rule nat_digits_large)
  also have "nat_digits (n div 10) = nat_digits k @ [digit_char (n div 10 mod 10)]"
    using nat_digits_large [OF a(2)] by (simp only: q)
  also have "nat_digits k = [digit_char (n div 1000), digit_char (k mod 10)]"
    using nat_digits_two [OF k] by (simp only: k10)
  finally show ?thesis by (simp add: k_def)
qed

lemma digit_char_0: "digit_char 0 = CHR ''0''"
  by code_simp

lemma is_digit_digit_char: "d < 10 \<Longrightarrow> is_digit (digit_char d)"
  by (simp add: is_digit_def digit_char_def)

lemma month_string:
  assumes "1 \<le> m" "m \<le> 12"
  shows "padStart0 2 (js_string_of_int m) = two_digits (nat m)"
proof (cases "m < 10")
  case True
  with assms have "nat m < 10" "nat m div 10 = 0" by simp_all
  with assms show ?thesis
    by (simp add: js_string_of_int_def nat_digits_small padStart0_def two_digits_def
        digit_char_0)
next
  case False
  with assms have "10 \<le> nat m" "nat m < 100" by simp_all
  with assms show ?thesis
    by (simp add: js_string_of_int_def nat_digits_two padStart0_def two_digits_def)
qed

lemma two_digits_digits: "n < 100 \<Longrightarrow> list_all is_digit (two_digits n)"
  by (simp add: two_digits_def is_digit_digit_char)

lemma year_string_four:
  assumes "1000 \<le> y" "y \<le> 9999"
  shows "length (js_string_of_int y) = 4 \<and> list_all is_digit (js_string_of_int y)"
proof -
  from assms have "1000 \<le> nat y" "nat y < 10000" by simp_all
  from nat_digits_four [OF this] assms show ?thesis
    by (simp add: js_string_of_int_def is_digit_digit_char)
qed

text \<open>
  C8, as amended. For every valid timestamp the key is determined by the timestamp and the
  time zone alone, and it is the calendar year and month of the local day: the year in
  decimal as JavaScript prints an integer, a hyphen, and the month number (1 to 12) in two
  digits. When the year lies between 1000 and 9999 the key has the shape \<open>YYYY-MM\<close>;
  the year is not padded, so other years are printed with as many digits as they have,
  and with a minus sign before year 0.
\<close>

theorem getMonthPartition_calendar:
  assumes "valid_time t"
  shows "in_calendar_month (getFullYear tz t) (nat (getMonth tz t)) (Day (LocalTime tz t))
     \<and> getMonthPartition tz t
          = js_string_of_int (getFullYear tz t) @ ''-'' @ two_digits (nat (getMonth tz t) + 1)
     \<and> (1000 \<le> getFullYear tz t \<and> getFullYear tz t \<le> 9999 \<longrightarrow>
          yyyy_mm (getMonthPartition tz t))"
proof -
  let ?y = "getFullYear tz t" and ?m = "getMonth tz t"
  have m: "0 \<le> ?m" "?m \<le> 11"
    using MonthFromTime_range by (simp_all add: getMonth_def)
  have c: "in_calendar_month ?y (nat ?m) (Day (LocalTime tz t))"
    using MonthFromTime_calendar by (simp add: getFullYear_def getMonth_def)
  have "padStart0 2 (js_string_of_int (?m + 1)) = two_digits (nat (?m + 1))"
    using m by (intro month_string) simp_all
  moreover have "nat (?m + 1) = nat ?m + 1"
    using m by simp
  ultimately have s: "getMonthPartition tz t
      = js_string_of_int ?y @ ''-'' @ two_digits (nat ?m + 1)"
    using assms by (simp add: getMonthPartition_def Let_def)
  have f: "yyyy_mm (getMonthPartition tz t)" if "1000 \<le> ?y" "?y \<le> 9999"
  proof -
    from year_string_four [OF that] have l: "length (js_string_of_int ?y) = 4"
      and d: "list_all is_digit (js_string_of_int ?y)"
      by simp_all
    have "nat ?m + 1 < 100" using m by simp
    from two_digits_digits [OF this] have d2: "list_all is_digit (two_digits (nat ?m + 1))" .
    have l2: "length (two_digits (nat ?m + 1)) = 2" by (simp add: two_digits_def)
    show ?thesis
      unfolding s yyyy_mm_def using l d d2 l2 by (simp add: nth_append)
  qed
  from c s f show ?thesis by blast
qed

theorem getMonthPartition_calendar_witness:
  "valid_time 1710000000000
   \<and> getMonthPartition utc 1710000000000 = ''2024-03''
   \<and> getFullYear utc 1710000000000 = 2024 \<and> getMonth utc 1710000000000 = 2
   \<and> in_calendar_month 2024 2 (Day (LocalTime utc 1710000000000))
   \<and> yyyy_mm (getMonthPartition utc 1710000000000)"
proof -
  have v: "valid_time 1710000000000" by (simp add: valid_time_def)
  have y: "getFullYear utc 1710000000000 = 2024" by code_simp
  have m: "getMonth utc 1710000000000 = 2" by code_simp
  have g: "getMonthPartition utc 1710000000000 = ''2024-03''" by code_simp
  note T = getMonthPartition_calendar [OF v, of utc]
  from T have "in_calendar_month (getFullYear utc 1710000000000)
      (nat (getMonth utc 1710000000000)) (Day (LocalTime utc 1710000000000))"
    by blast
  then have c: "in_calendar_month 2024 2 (Day (LocalTime utc 1710000000000))"
    by (simp add: y m)
  have "1000 \<le> getFullYear utc 1710000000000 \<and> getFullYear utc 1710000000000 \<le> 9999"
    by (simp add: y)
  with T have f: "yyyy_mm (getMonthPartition utc 1710000000000)"
    by blast
  show ?thesis
    by (intro conjI) (rule v g y m c f)+
qed

text \<open>
  C8 as stated fails: the first millisecond of the year 10000 is a valid timestamp, and its
  key has a five-digit year.
\<close>

theorem four_digit_year_counterexample:
  "valid_time 253402300800000
   \<and> getMonthPartition utc 253402300800000 = ''10000-01''
   \<and> \<not> yyyy_mm (getMonthPartition utc 253402300800000)"
proof -
  have v: "valid_time 253402300800000" by (simp add: valid_time_def)
  have y: "getFullYear utc 253402300800000 = 10000" by code_simp
  have m: "getMonth utc 253402300800000 = 0" by code_simp
  have d: "digit_char (Suc 0) = CHR ''1''" by code_simp
  have g: "getMonthPartition utc 253402300800000 = ''10000-01''"
    using v by (simp add: getMonthPartition_def y m js_string_of_int_def nat_digits_large
        nat_digits_small padStart0_def digit_char_0 d)
  have "\<not> yyyy_mm ''10000-01''" by (simp add: yyyy_mm_def)
  with v g show ?thesis by simp
qed

end
